theory Spec2Isabelle
  imports Main
begin

section \<open>Overview\<close>

text \<open>
  The program is one React component, \<open>App\<close> (\<open>src/App.tsx\<close>): it records from the
  microphone, sends each recorded segment to a transcription service, sends the joined
  transcripts to a text-generation service, shows the improved text as the live
  transcript and, when recording is stopped, saves it as a note in a list with delete
  and copy buttons.

  The component is modelled as a state machine. The state is the component's state
  variables and references together with the calls and timers that are pending; an
  event is anything that makes the component run code (a click, a recorder event, a
  timer, a promise settling); each handler of the source is a function from state to
  state, and a run is a list of events. The two services and the clock are inputs: what
  they answer arrives with the event.
\<close>

section \<open>Strings and clock readings\<close>

text \<open>
  JavaScript strings are modelled as \<open>string\<close>. \<open>String.prototype.trim\<close> removes the
  white space and line terminators at both ends; of those, the code points below 256 are
  listed here.
\<close>

definition isWhiteSpace :: "char \<Rightarrow> bool" where
  "isWhiteSpace c =
     (c = CHR 0x09 \<or> c = CHR 0x0A \<or> c = CHR 0x0B \<or> c = CHR 0x0C \<or> c = CHR 0x0D
      \<or> c = CHR 0x20 \<or> c = CHR 0xA0)"

definition trim :: "string \<Rightarrow> string" where
  "trim s = rev (dropWhile isWhiteSpace (rev (dropWhile isWhiteSpace s)))"

text \<open>\<open>Array.prototype.join(sep)\<close>.\<close>

fun join :: "string \<Rightarrow> string list \<Rightarrow> string" where
  "join sep [] = []"
| "join sep [x] = x"
| "join sep (x # y # ys) = x @ sep @ join sep (y # ys)"

text \<open>
  \<open>Date.now()\<close> is an integer number of milliseconds, an input of every handler that
  reads the clock. \<open>Date.now().toString()\<close> is its decimal numeral.
\<close>

definition digitChar :: "nat \<Rightarrow> char" where
  "digitChar d =
     (if d = 0 then CHR ''0'' else if d = 1 then CHR ''1'' else if d = 2 then CHR ''2''
      else if d = 3 then CHR ''3'' else if d = 4 then CHR ''4'' else if d = 5 then CHR ''5''
      else if d = 6 then CHR ''6'' else if d = 7 then CHR ''7'' else if d = 8 then CHR ''8''
      else CHR ''9'')"

function digits :: "nat \<Rightarrow> string" where
  "digits n = (if n < 10 then [digitChar n] else digits (n div 10) @ [digitChar (n mod 10)])"
  by pat_completeness auto
termination
  by (relation "measure (\<lambda>n. n)") auto

declare digits.simps [simp del]

definition toString :: "int \<Rightarrow> string" where
  "toString i = (if i < 0 then CHR ''-'' # digits (nat (- i)) else digits (nat i))"

section \<open>Data\<close>

text \<open>
  The source file holds two listings of the component. Definitions of the first listing
  (lines 1 to 394) carry the suffix 1, those of the second (from line 395) the suffix 2;
  what is literally the same in both carries no suffix.
\<close>

text \<open>\<open>interface TranscriptChunk\<close>, first listing: id, text, timestamp.\<close>

record TranscriptChunk1 =
  id1 :: string
  text1 :: string
  timestamp1 :: int

text \<open>\<open>interface TranscriptChunk\<close>, second listing: id, text.\<close>

record TranscriptChunk2 =
  id2 :: string
  text2 :: string

text \<open>\<open>interface VoiceNote\<close> (both listings).\<close>

record VoiceNote =
  note_id :: string
  note_text :: string
  note_timestamp :: int
  note_duration :: int

text \<open>Calls of \<open>toast.success\<close> and \<open>toast.error\<close>, in the order made.\<close>

datatype toast = Success string | Failure string

text \<open>\<open>MediaRecorder.state\<close>; the component never pauses.\<close>

datatype RecorderState = Inactive | Recording

text \<open>
  A function created while the component renders reads the state variables of that
  render, not the live ones: \<open>processAudioChunk\<close> (a \<open>useCallback\<close> over
  \<open>transcriptChunks\<close>), \<open>startRecording\<close> and \<open>stopRecording\<close> are all such
  closures. A \<open>render\<close> is the snapshot of the state variables that the closures of one
  render read. References (\<open>useRef\<close>) and the argument of an updater function
  (\<open>setX(prev => ...)\<close>) are live. The component has rendered again before the next
  event is handled, so a handler invoked by the page itself (a click) belongs to the
  render that shows the state at that event; a handler stored elsewhere (on the
  recorder, in a timer) keeps the render it was created in.
\<close>

record 'c render =
  seen_isRecording :: bool
  seen_currentTranscript :: string
  seen_transcriptChunks :: "'c list"

text \<open>
  One call of \<open>processAudioChunk\<close> is a task. It suspends at each \<open>await\<close>: reading the
  blob, the transcription request, the text-generation request (issued over the chunk
  list kept in the phase). \<open>Settled\<close> is after the \<open>finally\<close> block.
\<close>

datatype 'c phase = Reading | Transcribing | Generating "'c list" | Settled

record 'c task =
  seen :: "'c render"
  phase :: "'c phase"

text \<open>
  A recorder object with the render whose \<open>processAudioChunk\<close> its event handlers
  call: the handlers are assigned once, inside \<open>startRecording\<close>.
\<close>

record 'c MediaRecorder =
  rstate :: RecorderState
  handlers :: "'c render"

text \<open>
  A timer made by \<open>setInterval\<close>: whether it still runs (it stops only through
  \<open>clearInterval\<close>), and the render its callback belongs to.
\<close>

record 'c interval =
  running :: bool
  callback :: "'c render"

text \<open>
  The component: the six \<open>useState\<close> variables, the \<open>useRef\<close> cells, and what the
  runtime holds for it, with logs of the outgoing \<open>generateText\<close> prompts and of the
  toasts. The runtime holds every recorder and interval ever created (a reference is an
  index into these lists, and an object that is no longer referenced stays alive), the
  calls of \<open>startRecording\<close> suspended at \<open>getUserMedia\<close>, the calls of
  \<open>processAudioChunk\<close> (\<open>tasks\<close>), and the pending timeouts of 100 ms
  (\<open>chunkTimeouts\<close>) and 500 ms (\<open>finalizers\<close>), each with the render of its closure.
  \<open>audioChunksRef\<close> keeps the sizes of the stored blobs.
\<close>

record 'c app =
  isRecording :: bool
  currentTranscript :: string
  transcriptChunks :: "'c list"
  voiceNotes :: "VoiceNote list"
  isProcessing :: bool
  recordingDuration :: int
  mediaRecorderRef :: "nat option"
  audioChunksRef :: "nat list"
  recordingStartTimeRef :: int
  chunkIntervalRef :: "nat option"
  durationIntervalRef :: "nat option"
  recorders :: "'c MediaRecorder list"
  chunkIntervals :: "'c interval list"
  durationIntervals :: "'c interval list"
  starting :: "'c render list"
  tasks :: "'c task list"
  chunkTimeouts :: "'c render list"
  finalizers :: "'c render list"
  generateCalls :: "string list"
  toasts :: "toast list"

definition init :: "'c app" where
  "init = \<lparr> isRecording = False, currentTranscript = [], transcriptChunks = [],
     voiceNotes = [], isProcessing = False, recordingDuration = 0,
     mediaRecorderRef = None, audioChunksRef = [], recordingStartTimeRef = 0,
     chunkIntervalRef = None, durationIntervalRef = None, recorders = [],
     chunkIntervals = [], durationIntervals = [], starting = [], tasks = [],
     chunkTimeouts = [], finalizers = [], generateCalls = [], toasts = [] \<rparr>"

definition render :: "'c app \<Rightarrow> 'c render" where
  "render s = \<lparr> seen_isRecording = isRecording s,
     seen_currentTranscript = currentTranscript s,
     seen_transcriptChunks = transcriptChunks s \<rparr>"

text \<open>A promise that rejects, or a statement after it that throws: the value is only
  logged.\<close>

datatype rejection = Rejected

text \<open>
  How the \<open>await\<close> in \<open>startRecording\<close> and the construction after it end:
  \<open>getUserMedia\<close> rejects; it resolves but \<open>new MediaRecorder\<close> throws (the container
  format is not supported); both succeed.
\<close>

datatype media = Refused | Unsupported | Granted

text \<open>
  What the environment sends to the component, each event handled in one piece:
  \<^item> \<open>Click now\<close>: a press of the record button, with the clock reading;
  \<^item> \<open>MediaSettled m now\<close>: the oldest call of \<open>startRecording\<close> suspended at
    \<open>getUserMedia\<close> goes on, with the clock reading taken after it (the requests are
    answered in the order in which they were made);
  \<^item> \<open>DataAvailable i sz\<close> and \<open>RecorderStop i\<close>: recorder \<open>i\<close> delivers a blob of
    size \<open>sz\<close>, or its \<open>stop\<close> event;
  \<^item> \<open>ChunkInterval k\<close> and \<open>DurationTick k now\<close>: the five-second or one-second
    interval \<open>k\<close> fires; \<open>ChunkTimeout\<close> and \<open>FinalizeTimeout now\<close>: the oldest pending
    timeout of 100 ms or 500 ms fires;
  \<^item> \<open>FileRead t ok\<close>, \<open>Transcribed t res now\<close>, \<open>Generated t res\<close>: the promise that
    call \<open>t\<close> of \<open>processAudioChunk\<close> awaits settles (\<open>Inl\<close> is a rejection);
  \<^item> \<open>DeleteClick i\<close>: a press of the delete button of the note with id \<open>i\<close>.

  Clock readings taken within one handler are one value.
\<close>

datatype event =
    Click int
  | MediaSettled media int
  | DataAvailable nat nat
  | RecorderStop nat
  | ChunkInterval nat
  | ChunkTimeout
  | DurationTick nat int
  | FileRead nat bool
  | Transcribed nat "rejection + string" int
  | Generated nat "rejection + string"
  | FinalizeTimeout int
  | DeleteClick string

section \<open>Parts shared by both listings\<close>

definition phaseOf :: "'c app \<Rightarrow> nat \<Rightarrow> 'c phase" where
  "phaseOf s tid = (if tid < length (tasks s) then phase (tasks s ! tid) else Settled)"

definition setPhase :: "nat \<Rightarrow> 'c phase \<Rightarrow> 'c app \<Rightarrow> 'c app" where
  "setPhase tid p s = s\<lparr>tasks := (tasks s)[tid := (tasks s ! tid)\<lparr>phase := p\<rparr>]\<rparr>"

text \<open>The \<open>finally\<close> block of \<open>processAudioChunk\<close>: \<open>setIsProcessing(false)\<close>.\<close>

definition settle :: "nat \<Rightarrow> 'c app \<Rightarrow> 'c app" where
  "settle tid s = setPhase tid Settled (s\<lparr>isProcessing := False\<rparr>)"

text \<open>The prompt of the \<open>generateText\<close> request around the joined chunk texts.\<close>

definition promptHead :: string where
  "promptHead = ''Please clean up and improve this transcribed text by making it more coherent and fixing any transcription errors. Keep the meaning intact but make it flow naturally as a single piece of text. Do not add any commentary, just return the improved text:''"

definition prompt :: "string \<Rightarrow> string" where
  "prompt combinedText =
     promptHead @ [CHR 0x0A, CHR 0x0A, CHR 0x22] @ combinedText @ [CHR 0x22]"

text \<open>\<open>deleteNote\<close> (the same in both listings).\<close>

definition deleteNote :: "string \<Rightarrow> 'c app \<Rightarrow> 'c app" where
  "deleteNote i s =
     s\<lparr> voiceNotes := filter (\<lambda>note. note_id note \<noteq> i) (voiceNotes s),
        toasts := toasts s @ [Success ''Note deleted''] \<rparr>"

text \<open>\<open>startRecording\<close> up to its \<open>await\<close> (the same in both listings): the call is
  suspended at \<open>getUserMedia\<close>, and nothing has been checked or changed.\<close>

definition startRecording :: "'c app \<Rightarrow> 'c app" where
  "startRecording s = s\<lparr>starting := starting s @ [render s]\<rparr>"

text \<open>The callback of a one-second interval (the same in both listings).\<close>

definition durationTick :: "nat \<Rightarrow> int \<Rightarrow> 'c app \<Rightarrow> 'c app" where
  "durationTick k now s =
     (if k < length (durationIntervals s) \<and> running (durationIntervals s ! k)
      then s\<lparr>recordingDuration := (now - recordingStartTimeRef s) div 1000\<rparr>
      else s)"

text \<open>\<open>if (ref.current && ref.current.state === 'recording') ref.current.stop()\<close>.\<close>

definition stopIfRecording ::
  "nat option \<Rightarrow> 'c MediaRecorder list \<Rightarrow> 'c MediaRecorder list" where
  "stopIfRecording ref rs =
     (case ref of
        None \<Rightarrow> rs
      | Some i \<Rightarrow>
          (if i < length rs \<and> rstate (rs ! i) = Recording
           then rs[i := (rs ! i)\<lparr>rstate := Inactive\<rparr>]
           else rs))"

text \<open>\<open>if (ref.current) clearInterval(ref.current)\<close>.\<close>

definition clearInterval :: "nat option \<Rightarrow> 'c interval list \<Rightarrow> 'c interval list" where
  "clearInterval ref ivs =
     (case ref of
        None \<Rightarrow> ivs
      | Some k \<Rightarrow> (if k < length ivs then ivs[k := (ivs ! k)\<lparr>running := False\<rparr>] else ivs))"

section \<open>First listing\<close>

text \<open>
  \<open>processAudioChunk\<close> up to its first \<open>await\<close>: \<open>setIsProcessing(true)\<close>, then the
  blob is read. The argument \<open>r\<close> is the render the called closure belongs to.
\<close>

definition processAudioChunk1 ::
  "TranscriptChunk1 render \<Rightarrow> TranscriptChunk1 app \<Rightarrow> TranscriptChunk1 app" where
  "processAudioChunk1 r s =
     s\<lparr> isProcessing := True, tasks := tasks s @ [\<lparr>seen = r, phase = Reading\<rparr>] \<rparr>"

text \<open>\<open>catch\<close> (only \<open>console.error\<close>) and \<open>finally\<close>.\<close>

definition failed1 :: "nat \<Rightarrow> TranscriptChunk1 app \<Rightarrow> TranscriptChunk1 app" where
  "failed1 tid s = settle tid s"

text \<open>The \<open>FileReader\<close> promise settles: resolved (\<open>ok\<close>) or rejected.\<close>

definition onFileRead1 :: "nat \<Rightarrow> bool \<Rightarrow> TranscriptChunk1 app \<Rightarrow> TranscriptChunk1 app" where
  "onFileRead1 tid ok s =
     (if phaseOf s tid = Reading
      then (if ok then setPhase tid Transcribing s else failed1 tid s)
      else s)"

text \<open>
  \<open>transcribeAudio\<close> settles (\<open>Inl\<close>: it rejected, or a later statement threw). Lines 61
  to 81: the chunk is appended through the updater \<open>prev => [...prev, newChunk]\<close>, the
  request is built from the closure's own \<open>transcriptChunks\<close>.
\<close>

definition onTranscribed1 ::
  "nat \<Rightarrow> rejection + string \<Rightarrow> int \<Rightarrow> TranscriptChunk1 app \<Rightarrow> TranscriptChunk1 app" where
  "onTranscribed1 tid res now s =
     (if phaseOf s tid = Transcribing
      then (case res of
              Inl _ \<Rightarrow> failed1 tid s
            | Inr text \<Rightarrow>
                if trim text \<noteq> []
                then (let newChunk = \<lparr>id1 = toString now, text1 = trim text, timestamp1 = now\<rparr>;
                          s' = s\<lparr>transcriptChunks := transcriptChunks s @ [newChunk]\<rparr>;
                          allChunks = seen_transcriptChunks (seen (tasks s ! tid)) @ [newChunk]
                      in if length allChunks > 0
                         then setPhase tid (Generating allChunks)
                                (s'\<lparr>generateCalls := generateCalls s' @
                                       [prompt (join '' '' (map text1 allChunks))]\<rparr>)
                         else settle tid s')
                else settle tid s)
      else s)"

text \<open>\<open>generateText\<close> settles: line 83, or \<open>catch\<close>; then \<open>finally\<close>.\<close>

definition onGenerated1 ::
  "nat \<Rightarrow> rejection + string \<Rightarrow> TranscriptChunk1 app \<Rightarrow> TranscriptChunk1 app" where
  "onGenerated1 tid res s =
     (case phaseOf s tid of
        Generating chunks \<Rightarrow>
          (case res of
             Inl _ \<Rightarrow> failed1 tid s
           | Inr improvedText \<Rightarrow> settle tid (s\<lparr>currentTranscript := trim improvedText\<rparr>))
      | _ \<Rightarrow> s)"

text \<open>
  \<open>startRecording\<close> from its \<open>await\<close> on (lines 95 to 162), for the oldest suspended
  call; \<open>r\<close> is the render that call belongs to (the one of the click), and the handlers
  and timer callbacks created here belong to it. \<open>new MediaRecorder\<close> (line 104) comes
  before any assignment, so when it throws, as when \<open>getUserMedia\<close> rejects, only the
  \<open>catch\<close> block runs. No status is checked after the \<open>await\<close>; the references are
  overwritten, and a recorder or interval they held before stays alive.
\<close>

definition mediaSettled1 ::
  "media \<Rightarrow> int \<Rightarrow> TranscriptChunk1 app \<Rightarrow> TranscriptChunk1 app" where
  "mediaSettled1 m now s =
     (case starting s of
        [] \<Rightarrow> s
      | r # rs \<Rightarrow>
          (if m = Granted
           then s\<lparr> starting := rs,
                   recorders := recorders s @ [\<lparr>rstate = Recording, handlers = r\<rparr>],
                   mediaRecorderRef := Some (length (recorders s)),
                   audioChunksRef := [],
                   transcriptChunks := [],
                   currentTranscript := [],
                   recordingStartTimeRef := now,
                   recordingDuration := 0,
                   isRecording := True,
                   chunkIntervals := chunkIntervals s @ [\<lparr>running = True, callback = r\<rparr>],
                   chunkIntervalRef := Some (length (chunkIntervals s)),
                   durationIntervals :=
                     durationIntervals s @ [\<lparr>running = True, callback = r\<rparr>],
                   durationIntervalRef := Some (length (durationIntervals s)),
                   toasts := toasts s @ [Success ''Recording started!''] \<rparr>
           else s\<lparr> starting := rs,
                   toasts := toasts s @
                     [Failure ''Failed to start recording. Please check microphone permissions.''] \<rparr>))"

text \<open>\<open>stopRecording\<close> (lines 165 to 192); the note is built in the same call.\<close>

definition stopRecording1 :: "int \<Rightarrow> TranscriptChunk1 app \<Rightarrow> TranscriptChunk1 app" where
  "stopRecording1 now s =
     (let s' = s\<lparr> recorders := stopIfRecording (mediaRecorderRef s) (recorders s),
                  chunkIntervals := clearInterval (chunkIntervalRef s) (chunkIntervals s),
                  durationIntervals :=
                    clearInterval (durationIntervalRef s) (durationIntervals s),
                  isRecording := False \<rparr>
      in if trim (currentTranscript s) \<noteq> []
         then s'\<lparr> voiceNotes :=
                    \<lparr> note_id = toString now,
                      note_text = trim (currentTranscript s),
                      note_timestamp = now,
                      note_duration = (now - recordingStartTimeRef s) div 1000 \<rparr>
                    # voiceNotes s',
                  toasts := toasts s' @ [Success ''Voice note saved!''] \<rparr>
         else s')"

text \<open>The record button: \<open>onClick={isRecording ? stopRecording : startRecording}\<close>,
  \<open>disabled={isProcessing}\<close> (lines 252 and 253).\<close>

definition click1 :: "int \<Rightarrow> TranscriptChunk1 app \<Rightarrow> TranscriptChunk1 app" where
  "click1 now s =
     (if isProcessing s then s
      else if isRecording s then stopRecording1 now s
      else startRecording s)"

text \<open>\<open>mediaRecorder.ondataavailable\<close> (lines 115 to 119), of recorder \<open>i\<close>.\<close>

definition ondataavailable1 ::
  "nat \<Rightarrow> nat \<Rightarrow> TranscriptChunk1 app \<Rightarrow> TranscriptChunk1 app" where
  "ondataavailable1 i sz s =
     (if i < length (recorders s) \<and> sz > 0
      then s\<lparr>audioChunksRef := audioChunksRef s @ [sz]\<rparr>
      else s)"

text \<open>\<open>mediaRecorder.onstop\<close> (lines 121 to 129), of recorder \<open>i\<close>, up to the call it
  awaits.\<close>

definition onstop1 :: "nat \<Rightarrow> TranscriptChunk1 app \<Rightarrow> TranscriptChunk1 app" where
  "onstop1 i s =
     (if i < length (recorders s) \<and> length (audioChunksRef s) > 0
      then processAudioChunk1 (handlers (recorders s ! i)) s
      else s)"

text \<open>The callback of five-second interval \<open>k\<close> (lines 135 to 151): it stops the
  recorder in the reference and sets the 100 ms timeout.\<close>

definition chunkInterval1 :: "nat \<Rightarrow> TranscriptChunk1 app \<Rightarrow> TranscriptChunk1 app" where
  "chunkInterval1 k s =
     (if k < length (chunkIntervals s) \<and> running (chunkIntervals s ! k)
      then (case mediaRecorderRef s of
              None \<Rightarrow> s
            | Some i \<Rightarrow>
                (if i < length (recorders s) \<and> rstate (recorders s ! i) = Recording
                 then s\<lparr> recorders := (recorders s)[i := (recorders s ! i)\<lparr>rstate := Inactive\<rparr>],
                         chunkTimeouts := chunkTimeouts s @ [callback (chunkIntervals s ! k)] \<rparr>
                 else s))
      else s)"

text \<open>The callback of the 100 ms timeout (lines 139 to 149); \<open>isRecording\<close> is the
  one of its render, the references are read when it runs.\<close>

definition chunkTimeout1 :: "TranscriptChunk1 app \<Rightarrow> TranscriptChunk1 app" where
  "chunkTimeout1 s =
     (case chunkTimeouts s of
        [] \<Rightarrow> s
      | r # rs \<Rightarrow>
          (let s1 = s\<lparr>chunkTimeouts := rs\<rparr>;
               s2 = (if length (audioChunksRef s1) > 0
                     then (processAudioChunk1 r s1)\<lparr>audioChunksRef := []\<rparr>
                     else s1)
           in if seen_isRecording r
              then (case mediaRecorderRef s2 of
                      None \<Rightarrow> s2
                    | Some i \<Rightarrow>
                        (if i < length (recorders s2)
                         then s2\<lparr>recorders :=
                                   (recorders s2)[i := (recorders s2 ! i)\<lparr>rstate := Recording\<rparr>]\<rparr>
                         else s2))
              else s2))"

text \<open>One event in the first listing, which sets no 500 ms timeout.\<close>

fun step1 :: "event \<Rightarrow> TranscriptChunk1 app \<Rightarrow> TranscriptChunk1 app" where
  "step1 (Click now) s = click1 now s"
| "step1 (MediaSettled m now) s = mediaSettled1 m now s"
| "step1 (DataAvailable i sz) s = ondataavailable1 i sz s"
| "step1 (RecorderStop i) s = onstop1 i s"
| "step1 (ChunkInterval k) s = chunkInterval1 k s"
| "step1 ChunkTimeout s = chunkTimeout1 s"
| "step1 (DurationTick k now) s = durationTick k now s"
| "step1 (FileRead tid ok) s = onFileRead1 tid ok s"
| "step1 (Transcribed tid res now) s = onTranscribed1 tid res now s"
| "step1 (Generated tid res) s = onGenerated1 tid res s"
| "step1 (FinalizeTimeout now) s = s"
| "step1 (DeleteClick i) s = deleteNote i s"

fun run1 :: "event list \<Rightarrow> TranscriptChunk1 app \<Rightarrow> TranscriptChunk1 app" where
  "run1 [] s = s"
| "run1 (e # es) s = run1 es (step1 e s)"

section \<open>Second listing\<close>

text \<open>\<open>processAudioChunk\<close> up to its first \<open>await\<close> (lines 431 to 443).\<close>

definition processAudioChunk2 ::
  "TranscriptChunk2 render \<Rightarrow> nat \<Rightarrow> TranscriptChunk2 app \<Rightarrow> TranscriptChunk2 app" where
  "processAudioChunk2 r sz s =
     (if sz = 0 then s
      else s\<lparr> isProcessing := True, tasks := tasks s @ [\<lparr>seen = r, phase = Reading\<rparr>] \<rparr>)"

text \<open>\<open>catch\<close> (with its toast) and \<open>finally\<close>.\<close>

definition failed2 :: "nat \<Rightarrow> TranscriptChunk2 app \<Rightarrow> TranscriptChunk2 app" where
  "failed2 tid s = settle tid (s\<lparr>toasts := toasts s @ [Failure ''Error transcribing audio.'']\<rparr>)"

definition onFileRead2 :: "nat \<Rightarrow> bool \<Rightarrow> TranscriptChunk2 app \<Rightarrow> TranscriptChunk2 app" where
  "onFileRead2 tid ok s =
     (if phaseOf s tid = Reading
      then (if ok then setPhase tid Transcribing s else failed2 tid s)
      else s)"

text \<open>
  \<open>transcribeAudio\<close> settles. Lines 450 to 467: \<open>updatedChunks\<close> is the closure's own
  \<open>transcriptChunks\<close> with the new chunk, and that list is both stored and sent.
\<close>

definition onTranscribed2 ::
  "nat \<Rightarrow> rejection + string \<Rightarrow> int \<Rightarrow> TranscriptChunk2 app \<Rightarrow> TranscriptChunk2 app" where
  "onTranscribed2 tid res now s =
     (if phaseOf s tid = Transcribing
      then (case res of
              Inl _ \<Rightarrow> failed2 tid s
            | Inr text \<Rightarrow>
                if trim text \<noteq> []
                then (let newChunk = \<lparr>id2 = toString now, text2 = trim text\<rparr>;
                          updatedChunks = seen_transcriptChunks (seen (tasks s ! tid)) @ [newChunk]
                      in setPhase tid (Generating updatedChunks)
                           (s\<lparr> transcriptChunks := updatedChunks,
                               generateCalls := generateCalls s @
                                 [prompt (join '' '' (map text2 updatedChunks))] \<rparr>))
                else settle tid s)
      else s)"

definition onGenerated2 ::
  "nat \<Rightarrow> rejection + string \<Rightarrow> TranscriptChunk2 app \<Rightarrow> TranscriptChunk2 app" where
  "onGenerated2 tid res s =
     (case phaseOf s tid of
        Generating chunks \<Rightarrow>
          (case res of
             Inl _ \<Rightarrow> failed2 tid s
           | Inr improvedText \<Rightarrow> settle tid (s\<lparr>currentTranscript := trim improvedText\<rparr>))
      | _ \<Rightarrow> s)"

text \<open>
  \<open>startRecording\<close> from its \<open>await\<close> on (lines 481 to 518), for the oldest suspended
  call; \<open>r\<close> is the render that call belongs to. Transcript, chunk list, duration and
  start time are reset (lines 490 to 493) before \<open>new MediaRecorder\<close> (line 495), so
  when that throws the resets have happened and the \<open>catch\<close> block runs. No status is
  checked after the \<open>await\<close>; the references are overwritten, and a recorder or interval
  they held before stays alive.
\<close>

definition mediaSettled2 ::
  "media \<Rightarrow> int \<Rightarrow> TranscriptChunk2 app \<Rightarrow> TranscriptChunk2 app" where
  "mediaSettled2 m now s =
     (case starting s of
        [] \<Rightarrow> s
      | r # rs \<Rightarrow>
          (case m of
             Refused \<Rightarrow>
               s\<lparr> starting := rs,
                  toasts := toasts s @
                    [Failure ''Failed to start recording. Please check microphone permissions.''] \<rparr>
           | Unsupported \<Rightarrow>
               s\<lparr> starting := rs,
                  currentTranscript := [],
                  transcriptChunks := [],
                  recordingDuration := 0,
                  recordingStartTimeRef := now,
                  toasts := toasts s @
                    [Failure ''Failed to start recording. Please check microphone permissions.''] \<rparr>
           | Granted \<Rightarrow>
               s\<lparr> starting := rs,
                  currentTranscript := [],
                  transcriptChunks := [],
                  recordingDuration := 0,
                  recordingStartTimeRef := now,
                  recorders := recorders s @ [\<lparr>rstate = Recording, handlers = r\<rparr>],
                  mediaRecorderRef := Some (length (recorders s)),
                  isRecording := True,
                  durationIntervals :=
                    durationIntervals s @ [\<lparr>running = True, callback = r\<rparr>],
                  durationIntervalRef := Some (length (durationIntervals s)),
                  toasts := toasts s @ [Success ''Recording started!''] \<rparr>))"

text \<open>
  \<open>stopRecording\<close> (lines 521 to 550) sets a 500 ms timeout; the callback is a closure
  of the render \<open>stopRecording\<close> belongs to, and reads \<open>currentTranscript\<close> there.
\<close>

definition stopRecording2 :: "TranscriptChunk2 app \<Rightarrow> TranscriptChunk2 app" where
  "stopRecording2 s =
     s\<lparr> recorders := stopIfRecording (mediaRecorderRef s) (recorders s),
        durationIntervals := clearInterval (durationIntervalRef s) (durationIntervals s),
        isRecording := False,
        isProcessing := False,
        finalizers := finalizers s @ [render s] \<rparr>"

text \<open>The timeout's callback (lines 535 to 548), for the render \<open>r\<close> of its closure; the
  start time is a reference, read when the callback runs.\<close>

definition finalize2 ::
  "TranscriptChunk2 render \<Rightarrow> int \<Rightarrow> TranscriptChunk2 app \<Rightarrow> TranscriptChunk2 app" where
  "finalize2 r now s =
     (if trim (seen_currentTranscript r) \<noteq> []
      then s\<lparr> voiceNotes :=
                 \<lparr> note_id = toString now,
                   note_text = trim (seen_currentTranscript r),
                   note_timestamp = now,
                   note_duration = (now - recordingStartTimeRef s) div 1000 \<rparr>
                 # voiceNotes s,
               toasts := toasts s @ [Success ''Voice note saved!''] \<rparr>
      else s)"

text \<open>The oldest pending 500 ms timeout fires.\<close>

definition finalizeTimeout2 :: "int \<Rightarrow> TranscriptChunk2 app \<Rightarrow> TranscriptChunk2 app" where
  "finalizeTimeout2 now s =
     (case finalizers s of
        [] \<Rightarrow> s
      | r # rs \<Rightarrow> finalize2 r now (s\<lparr>finalizers := rs\<rparr>))"

text \<open>The record button: \<open>onClick={isRecording ? stopRecording : startRecording}\<close>,
  \<open>disabled={isRecording && isProcessing}\<close> (lines 607 and 608).\<close>

definition click2 :: "TranscriptChunk2 app \<Rightarrow> TranscriptChunk2 app" where
  "click2 s =
     (if isRecording s \<and> isProcessing s then s
      else if isRecording s then stopRecording2 s
      else startRecording s)"

text \<open>\<open>mediaRecorder.ondataavailable\<close> (lines 498 to 500), of recorder \<open>i\<close>.\<close>

definition ondataavailable2 ::
  "nat \<Rightarrow> nat \<Rightarrow> TranscriptChunk2 app \<Rightarrow> TranscriptChunk2 app" where
  "ondataavailable2 i sz s =
     (if i < length (recorders s)
      then processAudioChunk2 (handlers (recorders s ! i)) sz s
      else s)"

text \<open>One event in the second listing: its \<open>onstop\<close> only releases the microphone, and
  it has no five-second interval (the recorder cuts the segments itself).\<close>

fun step2 :: "event \<Rightarrow> TranscriptChunk2 app \<Rightarrow> TranscriptChunk2 app" where
  "step2 (Click now) s = click2 s"
| "step2 (MediaSettled m now) s = mediaSettled2 m now s"
| "step2 (DataAvailable i sz) s = ondataavailable2 i sz s"
| "step2 (RecorderStop i) s = s"
| "step2 (ChunkInterval k) s = s"
| "step2 ChunkTimeout s = s"
| "step2 (DurationTick k now) s = durationTick k now s"
| "step2 (FileRead tid ok) s = onFileRead2 tid ok s"
| "step2 (Transcribed tid res now) s = onTranscribed2 tid res now s"
| "step2 (Generated tid res) s = onGenerated2 tid res s"
| "step2 (FinalizeTimeout now) s = finalizeTimeout2 now s"
| "step2 (DeleteClick i) s = deleteNote i s"

fun run2 :: "event list \<Rightarrow> TranscriptChunk2 app \<Rightarrow> TranscriptChunk2 app" where
  "run2 [] s = s"
| "run2 (e # es) s = run2 es (step2 e s)"

section \<open>Notions used by the properties\<close>

text \<open>A rejected promise inside \<open>processAudioChunk\<close>: the blob could not be read, or
  one of the two requests failed.\<close>

fun failureEvent :: "event \<Rightarrow> bool" where
  "failureEvent (FileRead tid ok) = (\<not> ok)"
| "failureEvent (Transcribed tid res now) = isl res"
| "failureEvent (Generated tid res) = isl res"
| "failureEvent _ = False"

text \<open>
  The event settles the promise that a call in the given phase is awaiting; the call is
  given by its index.
\<close>

fun awaited :: "'c phase \<Rightarrow> event \<Rightarrow> nat \<Rightarrow> bool" where
  "awaited Reading (FileRead t ok) tid = (t = tid)"
| "awaited Transcribing (Transcribed t res now) tid = (t = tid)"
| "awaited (Generating chunks) (Generated t res) tid = (t = tid)"
| "awaited _ _ _ = False"

definition answers :: "event \<Rightarrow> 'c app \<Rightarrow> nat \<Rightarrow> bool" where
  "answers e s tid = awaited (phaseOf s tid) e tid"

text \<open>
  The answers after which \<open>processAudioChunk\<close> has another \<open>await\<close> to reach: the blob
  was read, or the transcription is not empty after trimming. After every other answer
  (a rejection, an empty transcription, any answer of the text generation) the call is
  at its end.
\<close>

fun goesOn :: "event \<Rightarrow> bool" where
  "goesOn (FileRead t ok) = ok"
| "goesOn (Transcribed t res now) = (case res of Inl _ \<Rightarrow> False | Inr heard \<Rightarrow> trim heard \<noteq> [])"
| "goesOn _ = False"

text \<open>The clock reading an event carries (0 for the events that carry none).\<close>

fun clock :: "event \<Rightarrow> int" where
  "clock (Click now) = now"
| "clock (MediaSettled m now) = now"
| "clock (DurationTick k now) = now"
| "clock (Transcribed tid res now) = now"
| "clock (FinalizeTimeout now) = now"
| "clock _ = 0"

text \<open>The clock readings of the events of a run at which the note list grew.\<close>

fun noteTimes1 :: "event list \<Rightarrow> TranscriptChunk1 app \<Rightarrow> int list" where
  "noteTimes1 [] s = []"
| "noteTimes1 (e # es) s =
     (if length (voiceNotes (step1 e s)) > length (voiceNotes s) then [clock e] else [])
     @ noteTimes1 es (step1 e s)"

fun noteTimes2 :: "event list \<Rightarrow> TranscriptChunk2 app \<Rightarrow> int list" where
  "noteTimes2 [] s = []"
| "noteTimes2 (e # es) s =
     (if length (voiceNotes (step2 e s)) > length (voiceNotes s) then [clock e] else [])
     @ noteTimes2 es (step2 e s)"

text \<open>
  The result a step applies to \<open>currentTranscript\<close>: when the text-generation request
  of a call returns successfully, the number of chunks the request was issued over and
  the text stored. Only the calls with index at least \<open>n\<close> are looked at (those made
  after a given moment; all of them for \<open>n = 0\<close>).
\<close>

definition applied :: "nat \<Rightarrow> event \<Rightarrow> 'c app \<Rightarrow> (nat \<times> string) list" where
  "applied n e s =
     (case e of
        Generated tid res \<Rightarrow>
          (case res of
             Inl _ \<Rightarrow> []
           | Inr improvedText \<Rightarrow>
               (case phaseOf s tid of
                  Generating chunks \<Rightarrow>
                    (if n \<le> tid then [(length chunks, trim improvedText)] else [])
                | _ \<Rightarrow> []))
      | _ \<Rightarrow> [])"


fun appliedResults2 ::
  "nat \<Rightarrow> event list \<Rightarrow> TranscriptChunk2 app \<Rightarrow> (nat \<times> string) list" where
  "appliedResults2 n [] s = []"
| "appliedResults2 n (e # es) s = applied n e s @ appliedResults2 n es (step2 e s)"

text \<open>
  The events of one session, the one whose recorder is \<open>i\<close> and whose five-second
  interval is \<open>k\<close>, up to the next start: no suspended call of \<open>startRecording\<close> goes
  on, and no other recorder or five-second interval delivers anything. Everything else
  may happen, in any order.
\<close>

fun sessionEvent :: "nat \<Rightarrow> nat \<Rightarrow> event \<Rightarrow> bool" where
  "sessionEvent i k (MediaSettled m now) = False"
| "sessionEvent i k (DataAvailable j sz) = (j = i)"
| "sessionEvent i k (RecorderStop j) = (j = i)"
| "sessionEvent i k (ChunkInterval j) = (j = k)"
| "sessionEvent i k _ = True"

text \<open>Every call of \<open>processAudioChunk\<close> made so far has settled.\<close>

definition allSettled :: "'c app \<Rightarrow> bool" where
  "allSettled s = list_all (\<lambda>t. phase t = Settled) (tasks s)"




section \<open>Example runs\<close>

text \<open>A store holding one note.\<close>

definition noteExample :: "TranscriptChunk2 app" where
  "noteExample = init\<lparr>voiceNotes :=
     [\<lparr>note_id = ''1700000000500'', note_text = ''Buy milk.'', note_timestamp = 1700000000500,
       note_duration = 7\<rparr>]\<rparr>"

text \<open>A first segment whose transcription request is outstanding: in the second
  listing a timeslice blob, in the first the blob delivered when recording is stopped.\<close>

definition transcribingExample2 :: "TranscriptChunk2 app" where
  "transcribingExample2 =
     run2 [Click 900, MediaSettled Granted 1000, DataAvailable 0 40000, FileRead 0 True] init"

definition transcribingExample1 :: "TranscriptChunk1 app" where
  "transcribingExample1 =
     run1 [Click 900, MediaSettled Granted 1000, Click 4000,
           DataAvailable 0 40000, RecorderStop 0, FileRead 0 True] init"

text \<open>A second segment whose text-generation request is outstanding, after the first
  segment's result has been applied.\<close>

definition generatingExample1 :: "TranscriptChunk1 app" where
  "generatingExample1 =
     run1 [Click 900, MediaSettled Granted 1000, ChunkInterval 0, DataAvailable 0 40000,
           RecorderStop 0, FileRead 0 True, ChunkTimeout, FileRead 1 True,
           Transcribed 0 (Inr ''hello'') 6400, Generated 0 (Inr ''Hello.''),
           Transcribed 1 (Inr ''hello'') 7500] init"

definition generatingExample2 :: "TranscriptChunk2 app" where
  "generatingExample2 =
     run2 [Click 900, MediaSettled Granted 1000, DataAvailable 0 40000, FileRead 0 True,
           Transcribed 0 (Inr ''hello'') 6400, Generated 0 (Inr ''Hello.''),
           DataAvailable 0 40000, FileRead 1 True, Transcribed 1 (Inr ''world'') 11400] init"

text \<open>A session of the second listing with one applied result and nothing pending,
  seven seconds after its start.\<close>

definition recordingExample2 :: "TranscriptChunk2 app" where
  "recordingExample2 =
     run2 [Click 900, MediaSettled Granted 1000, DataAvailable 0 40000, FileRead 0 True,
           Transcribed 0 (Inr ''hello'') 6400, Generated 0 (Inr ''Hello.'')] init"

text \<open>That session is stopped at 8000, and the blob flushed by the recorder is being
  processed: the page shows \<open>Finalizing note...\<close>, the timeout set by \<open>stopRecording\<close>
  is pending.\<close>

definition finalizingExample2 :: "TranscriptChunk2 app" where
  "finalizingExample2 = run2 [Click 8000, DataAvailable 0 20000] recordingExample2"

text \<open>Two segments of the second listing, yielding \<open>hello\<close> and \<open>world\<close>: with
  the transcription of the second arriving first, and one after the other.\<close>

definition overlappingSegments2 :: "event list" where
  "overlappingSegments2 =
     [Click 900, MediaSettled Granted 1000, DataAvailable 0 40000, FileRead 0 True,
      DataAvailable 0 40000, FileRead 1 True,
      Transcribed 1 (Inr ''world'') 11400, Transcribed 0 (Inr ''hello'') 11900,
      Generated 1 (Inr ''World.''), Generated 0 (Inr ''Hello.'')]"

definition successiveSegments2 :: "event list" where
  "successiveSegments2 =
     [Click 900, MediaSettled Granted 1000,
      DataAvailable 0 40000, FileRead 0 True, Transcribed 0 (Inr ''hello'') 6400,
      Generated 0 (Inr ''Hello.''),
      DataAvailable 0 40000, FileRead 1 True, Transcribed 1 (Inr ''world'') 11400,
      Generated 1 (Inr ''World.'')]"

text \<open>The two calls the first listing makes when the five-second interval fires (from
  \<open>onstop\<close> and from the 100 ms timeout, over the same audio), the transcription of the
  second arriving first and differing in a word.\<close>

definition overlappingSegments1 :: "event list" where
  "overlappingSegments1 =
     [Click 900, MediaSettled Granted 1000, ChunkInterval 0, DataAvailable 0 40000,
      RecorderStop 0, FileRead 0 True, ChunkTimeout, FileRead 1 True,
      Transcribed 1 (Inr ''hello word'') 6400, Transcribed 0 (Inr ''hello world'') 6900,
      Generated 1 (Inr ''Hello word.''), Generated 0 (Inr ''Hello world.'')]"

text \<open>From \<open>finalizingExample2\<close>: the flushed segment is transcribed and enhanced, then
  the timeout fires; and the same with the timeout firing while the request is out.\<close>

definition flushThenFinalize2 :: "event list" where
  "flushThenFinalize2 =
     [FileRead 1 True, Transcribed 1 (Inr ''world'') 8200, Generated 1 (Inr ''World.''),
      FinalizeTimeout 8500]"

definition finalizeDuringFlush2 :: "event list" where
  "finalizeDuringFlush2 =
     [FileRead 1 True, Transcribed 1 (Inr ''world'') 8450, FinalizeTimeout 8500]"

text \<open>First listing: recording is stopped after three seconds, then the recorder
  delivers its blob and it is transcribed and enhanced.\<close>

definition stopThenFlush1 :: "event list" where
  "stopThenFlush1 =
     [Click 900, MediaSettled Granted 1000, Click 4000, DataAvailable 0 40000, RecorderStop 0,
      FileRead 0 True, Transcribed 0 (Inr ''hello'') 4300, Generated 0 (Inr ''Hello.'')]"

text \<open>
  Second listing, two sessions. The second is started and stopped within a second of
  the first being stopped (its transcript comes from a call of the first session that
  was still in flight). The two 500 ms timeouts, due at 12500 and 12800, are run late
  and together by the browser, and read the same clock value.
\<close>

definition twoStops2 :: "event list" where
  "twoStops2 =
     [Click 900, MediaSettled Granted 1000, DataAvailable 0 40000, FileRead 0 True,
      DataAvailable 0 40000, FileRead 1 True,
      Transcribed 0 (Inr ''one'') 11200, Generated 0 (Inr ''One.''),
      Click 12000, DataAvailable 0 20000, FileRead 2 True,
      Click 12050, MediaSettled Granted 12100,
      Transcribed 1 (Inr ''two'') 12200, Generated 1 (Inr ''Two.''),
      Click 12300, DataAvailable 1 3000, FileRead 3 True]"

definition sameMillisecond2 :: "event list" where
  "sameMillisecond2 = twoStops2 @ [FinalizeTimeout 13000, FinalizeTimeout 13000]"

text \<open>The same with the timeouts running on time; the older note is then deleted.\<close>

definition differentMilliseconds2 :: "event list" where
  "differentMilliseconds2 =
     twoStops2 @ [FinalizeTimeout 12500, FinalizeTimeout 12800, DeleteClick ''12500'']"

text \<open>First listing: one session with a transcript, stopped at 9000.\<close>

definition savedSession1 :: "event list" where
  "savedSession1 =
     [Click 900, MediaSettled Granted 1000, ChunkInterval 0, DataAvailable 0 40000,
      RecorderStop 0, FileRead 0 True, ChunkTimeout, FileRead 1 True,
      Transcribed 0 (Inr ''hello'') 6400, Generated 0 (Inr ''Hello.''),
      Transcribed 1 (Inr ''hello'') 6500, Generated 1 (Inr ''Hello.''),
      Click 9000]"

text \<open>The record button is pressed twice before \<open>getUserMedia\<close> has answered the first
  press (a double click); the first call of \<open>startRecording\<close> then goes on.\<close>

definition doublePress :: "event list" where
  "doublePress = [Click 1000, Click 1050, MediaSettled Granted 1200]"

text \<open>From \<open>finalizingExample2\<close> (session started at 1000, stopped at 8000): the record
  button is pressed again at 8100 and the new session begins at 8200, before the
  timeout of the stopped session fires at 8500.\<close>

definition restartBeforeFinalize2 :: "event list" where
  "restartBeforeFinalize2 = [Click 8100, MediaSettled Granted 8200, FinalizeTimeout 8500]"

text \<open>Second listing: recording is stopped after three seconds, before any transcript;
  the flushed blob is transcribed and enhanced by 4200, and the timeout fires at 4500.\<close>

definition stopBeforeTranscript2 :: "event list" where
  "stopBeforeTranscript2 =
     [Click 900, MediaSettled Granted 1000, Click 4000, DataAvailable 0 40000,
      FileRead 0 True, Transcribed 0 (Inr ''hello'') 4200, Generated 0 (Inr ''Hello.''),
      FinalizeTimeout 4500]"




text \<open>
  Second listing: a session is stopped and, while the text-generation request of its
  flushed segment is out, the button is pressed again; and the events of the session
  that press starts, during which the request of the earlier session returns.
\<close>

definition leftoverPending2 :: "TranscriptChunk2 app" where
  "leftoverPending2 =
     run2 [Click 900, MediaSettled Granted 1000, Click 4000, DataAvailable 0 40000,
           FileRead 0 True, Transcribed 0 (Inr ''hello'') 4300, Click 4400] init"

definition leftoverReturns2 :: "event list" where
  "leftoverReturns2 =
     [FinalizeTimeout 4500,
      DataAvailable 1 40000, FileRead 1 True, Transcribed 1 (Inr ''world'') 9700,
      Generated 1 (Inr ''Hello world.''), Generated 0 (Inr ''Hello.'')]"

section \<open>Decimal numerals\<close>

lemma digits_small: "n < 10 \<Longrightarrow> digits n = [digitChar n]"
  by (simp add: digits.simps)

lemma digits_big: "10 \<le> n \<Longrightarrow> digits n = digits (n div 10) @ [digitChar (n mod 10)]"
  by (subst digits.simps) simp

lemma digits_not_Nil: "digits n \<noteq> []"
  by (subst digits.simps) simp

lemma digitChar_inj: "a < 10 \<Longrightarrow> b < 10 \<Longrightarrow> digitChar a = digitChar b \<Longrightarrow> a = b"
  by (simp add: digitChar_def split: if_splits) arith

lemma digitChar_not_minus: "digitChar d \<noteq> CHR ''-''"
  by (simp add: digitChar_def)

lemma hd_digits_not_minus: "hd (digits n) \<noteq> CHR ''-''"
proof (induction n rule: digits.induct)
  case (1 n)
  show ?case
  proof (cases "n < 10")
    case True
    then show ?thesis by (simp add: digits_small digitChar_not_minus)
  next
    case False
    with 1 have "hd (digits (n div 10)) \<noteq> CHR ''-''" by simp
    with False show ?thesis by (simp add: digits_big digits_not_Nil)
  qed
qed

lemma digits_inj: "digits n = digits m \<Longrightarrow> n = m"
proof (induction n arbitrary: m rule: digits.induct)
  case (1 n)
  show ?case
  proof (cases "n < 10")
    case small_n: True
    show ?thesis
    proof (cases "m < 10")
      case True
      with small_n 1(2) show ?thesis by (simp add: digits_small digitChar_inj)
    next
      case False
      with small_n 1(2) digits_not_Nil [of "m div 10"] show ?thesis
        by (auto simp: digits_small digits_big)
    qed
  next
    case big_n: False
    show ?thesis
    proof (cases "m < 10")
      case True
      with big_n 1(2) digits_not_Nil [of "n div 10"] show ?thesis
        by (auto simp: digits_small digits_big)
    next
      case False
      with big_n 1(2) have eq: "digits (n div 10) = digits (m div 10)"
        and last: "digitChar (n mod 10) = digitChar (m mod 10)"
        by (simp_all add: digits_big)
      from 1(1) [OF big_n eq] have "n div 10 = m div 10" .
      moreover from last have "n mod 10 = m mod 10" by (simp add: digitChar_inj)
      ultimately show ?thesis by (metis div_mult_mod_eq)
    qed
  qed
qed

lemma toString_inj: "toString a = toString b \<Longrightarrow> a = b"
proof -
  assume eq: "toString a = toString b"
  have neg: "False" if "toString x = toString y" "x < 0" "\<not> y < 0" for x y
  proof -
    from that have "CHR ''-'' # digits (nat (- x)) = digits (nat y)" by (simp add: toString_def)
    then have "hd (digits (nat y)) = CHR ''-''" by (metis list.sel(1))
    then show False by (simp add: hd_digits_not_minus)
  qed
  show ?thesis
  proof (cases "a < 0")
    case a: True
    show ?thesis
    proof (cases "b < 0")
      case True
      with a eq have "nat (- a) = nat (- b)" by (simp add: toString_def digits_inj)
      with a True show ?thesis by simp
    next
      case False
      with neg [OF eq a] show ?thesis by simp
    qed
  next
    case a: False
    show ?thesis
    proof (cases "b < 0")
      case True
      with neg [OF eq [symmetric] True a] show ?thesis by simp
    next
      case False
      with a eq have "nat a = nat b" by (simp add: toString_def digits_inj)
      with a False show ?thesis by simp
    qed
  qed
qed

lemmas eval_defs = Let_def toString_def digits_small digits_big digitChar_def trim_def isWhiteSpace_def
  init_def render_def phaseOf_def setPhase_def settle_def deleteNote_def durationTick_def
  startRecording_def stopIfRecording_def clearInterval_def
  processAudioChunk2_def failed2_def onFileRead2_def onTranscribed2_def
  onGenerated2_def mediaSettled2_def stopRecording2_def finalize2_def finalizeTimeout2_def
  click2_def ondataavailable2_def
  processAudioChunk1_def failed1_def onFileRead1_def onTranscribed1_def
  onGenerated1_def mediaSettled1_def stopRecording1_def click1_def ondataavailable1_def
  onstop1_def chunkInterval1_def chunkTimeout1_def

lemmas step_defs = Let_def phaseOf_def setPhase_def settle_def deleteNote_def durationTick_def
  startRecording_def stopIfRecording_def clearInterval_def
  processAudioChunk2_def failed2_def onFileRead2_def onTranscribed2_def
  onGenerated2_def mediaSettled2_def stopRecording2_def finalize2_def finalizeTimeout2_def
  click2_def ondataavailable2_def
  processAudioChunk1_def failed1_def onFileRead1_def onTranscribed1_def
  onGenerated1_def mediaSettled1_def stopRecording1_def click1_def ondataavailable1_def
  onstop1_def chunkInterval1_def chunkTimeout1_def

lemma run1_append: "run1 (es @ fs) s = run1 fs (run1 es s)"
  by (induction es arbitrary: s) simp_all

lemma run2_append: "run2 (es @ fs) s = run2 fs (run2 es s)"
  by (induction es arbitrary: s) simp_all

section \<open>The note store\<close>

text \<open>
  Claim C8. Deleting an id that no note of the store carries leaves the store as it was,
  and nothing fails: \<open>deleteNote\<close> is a total function on the component state. Deleting
  the same id twice gives the store that deleting it once gives.
\<close>

theorem deleteNote_absent_unchanged:
  assumes "i \<notin> note_id ` set (voiceNotes s)"
  shows "voiceNotes (deleteNote i s) = voiceNotes s
    \<and> voiceNotes (deleteNote j (deleteNote j s)) = voiceNotes (deleteNote j s)"
  using assms by (auto simp: deleteNote_def filter_id_conv)

theorem deleteNote_absent_unchanged_witness:
  "''42'' \<notin> note_id ` set (voiceNotes noteExample)
   \<and> voiceNotes (deleteNote ''42'' noteExample) = voiceNotes noteExample
   \<and> voiceNotes (deleteNote ''1700000000500'' (deleteNote ''1700000000500'' noteExample))
       = voiceNotes (deleteNote ''1700000000500'' noteExample)
   \<and> voiceNotes (deleteNote ''1700000000500'' noteExample) = []"
proof -
  have h: "''42'' \<notin> note_id ` set (voiceNotes noteExample)"
    by (simp add: noteExample_def init_def)
  have "voiceNotes (deleteNote ''1700000000500'' noteExample) = []"
    by (simp add: noteExample_def init_def deleteNote_def)
  with h deleteNote_absent_unchanged [OF h, of "''1700000000500''"] show ?thesis by simp
qed

section \<open>Segments without speech\<close>

text \<open>A call that has settled stays settled.\<close>

lemma settled_step1: "phaseOf s tid = Settled \<Longrightarrow> tid < length (tasks s) \<Longrightarrow>
   phaseOf (step1 e s) tid = Settled \<and> tid < length (tasks (step1 e s))"
  by (cases e)
    (auto simp: step_defs nth_append nth_list_update
          split: if_splits option.splits list.splits sum.splits phase.splits media.splits)

lemma settled_step2: "phaseOf s tid = Settled \<Longrightarrow> tid < length (tasks s) \<Longrightarrow>
   phaseOf (step2 e s) tid = Settled \<and> tid < length (tasks (step2 e s))"
  by (cases e)
    (auto simp: step_defs nth_append nth_list_update
          split: if_splits option.splits list.splits sum.splits phase.splits media.splits)

lemma settled_run1: "phaseOf s tid = Settled \<Longrightarrow> tid < length (tasks s) \<Longrightarrow>
   phaseOf (run1 es s) tid = Settled"
  by (induction es arbitrary: s) (simp_all add: settled_step1)

lemma settled_run2: "phaseOf s tid = Settled \<Longrightarrow> tid < length (tasks s) \<Longrightarrow>
   phaseOf (run2 es s) tid = Settled"
  by (induction es arbitrary: s) (simp_all add: settled_step2)

lemma transcribingExample2_eval:
  "phaseOf transcribingExample2 0 = Transcribing \<and> transcriptChunks transcribingExample2 = []
   \<and> generateCalls transcribingExample2 = [] \<and> isProcessing transcribingExample2
   \<and> isRecording transcribingExample2 \<and> currentTranscript transcribingExample2 = []"
  by (simp add: transcribingExample2_def eval_defs)

lemma transcribingExample1_eval:
  "phaseOf transcribingExample1 0 = Transcribing \<and> transcriptChunks transcribingExample1 = []
   \<and> generateCalls transcribingExample1 = [] \<and> isProcessing transcribingExample1"
  by (simp add: transcribingExample1_def eval_defs)

text \<open>
  Claim C5. When the transcription of a segment comes back empty after trimming, no
  chunk is appended to the chunk list, no text-generation request is issued for that
  segment, and the call is over: whatever happens later, it stays settled. This holds in
  both listings.
\<close>

theorem empty_transcription_no_fragment:
  assumes "trim text = []"
    and "phaseOf s1 tid1 = Transcribing" and "phaseOf s2 tid2 = Transcribing"
  shows "transcriptChunks (step1 (Transcribed tid1 (Inr text) now) s1) = transcriptChunks s1
    \<and> generateCalls (step1 (Transcribed tid1 (Inr text) now) s1) = generateCalls s1
    \<and> phaseOf (run1 es (step1 (Transcribed tid1 (Inr text) now) s1)) tid1 = Settled
    \<and> transcriptChunks (step2 (Transcribed tid2 (Inr text) now) s2) = transcriptChunks s2
    \<and> generateCalls (step2 (Transcribed tid2 (Inr text) now) s2) = generateCalls s2
    \<and> phaseOf (run2 es (step2 (Transcribed tid2 (Inr text) now) s2)) tid2 = Settled"
proof -
  from assms have a: "step1 (Transcribed tid1 (Inr text) now) s1 = settle tid1 s1"
    by (simp add: onTranscribed1_def)
  from assms have b: "step2 (Transcribed tid2 (Inr text) now) s2 = settle tid2 s2"
    by (simp add: onTranscribed2_def)
  from assms have l1: "tid1 < length (tasks s1)" and l2: "tid2 < length (tasks s2)"
    by (auto simp: phaseOf_def split: if_splits)
  have "phaseOf (settle tid1 s1) tid1 = Settled" "tid1 < length (tasks (settle tid1 s1))"
    using l1 by (simp_all add: phaseOf_def settle_def setPhase_def)
  then have c: "phaseOf (run1 es (settle tid1 s1)) tid1 = Settled"
    by (rule settled_run1)
  have "phaseOf (settle tid2 s2) tid2 = Settled" "tid2 < length (tasks (settle tid2 s2))"
    using l2 by (simp_all add: phaseOf_def settle_def setPhase_def)
  then have d: "phaseOf (run2 es (settle tid2 s2)) tid2 = Settled"
    by (rule settled_run2)
  show ?thesis
    unfolding a b using c d by (simp add: settle_def setPhase_def)
qed

theorem empty_transcription_no_fragment_witness:
  "trim ''  '' = []
   \<and> phaseOf transcribingExample1 0 = Transcribing \<and> phaseOf transcribingExample2 0 = Transcribing
   \<and> transcriptChunks (step1 (Transcribed 0 (Inr ''  '') 9000) transcribingExample1) = []
   \<and> generateCalls (step1 (Transcribed 0 (Inr ''  '') 9000) transcribingExample1) = []
   \<and> phaseOf (run1 [Generated 0 (Inr ''x'')]
        (step1 (Transcribed 0 (Inr ''  '') 9000) transcribingExample1)) 0 = Settled
   \<and> transcriptChunks (step2 (Transcribed 0 (Inr ''  '') 9000) transcribingExample2) = []
   \<and> generateCalls (step2 (Transcribed 0 (Inr ''  '') 9000) transcribingExample2) = []
   \<and> phaseOf (run2 [Generated 0 (Inr ''x'')]
        (step2 (Transcribed 0 (Inr ''  '') 9000) transcribingExample2)) 0 = Settled"
proof -
  have h: "trim ''  '' = []" by (simp add: trim_def isWhiteSpace_def)
  have h1: "phaseOf transcribingExample1 0 = Transcribing"
    and h2: "phaseOf transcribingExample2 0 = Transcribing"
    by (simp_all add: transcribingExample1_eval transcribingExample2_eval)
  show ?thesis
    using h h1 h2
      empty_transcription_no_fragment [OF h h1 h2, of 9000 "[Generated 0 (Inr ''x'')]"]
    by (simp add: transcribingExample1_eval transcribingExample2_eval)
qed

section \<open>Failing requests\<close>

lemma generatingExample1_eval:
  "currentTranscript generatingExample1 = ''Hello.''
   \<and> map text1 (transcriptChunks generatingExample1) = [''hello'', ''hello'']
   \<and> phaseOf generatingExample1 1 = Generating [\<lparr>id1 = ''7500'', text1 = ''hello'', timestamp1 = 7500\<rparr>]
   \<and> isRecording generatingExample1 \<and> \<not> isProcessing generatingExample1
   \<and> length (generateCalls generatingExample1) = 2"
  by (simp add: generatingExample1_def eval_defs)

lemma generatingExample2_eval:
  "currentTranscript generatingExample2 = ''Hello.''
   \<and> map text2 (transcriptChunks generatingExample2) = [''world'']
   \<and> phaseOf generatingExample2 1 = Generating [\<lparr>id2 = ''11400'', text2 = ''world''\<rparr>]
   \<and> isRecording generatingExample2 \<and> isProcessing generatingExample2
   \<and> length (generateCalls generatingExample2) = 2"
  by (simp add: generatingExample2_def eval_defs)

text \<open>
  Claim C7. When the blob cannot be read or one of the two requests fails, the step
  changes neither \<open>currentTranscript\<close> nor the chunk list, issues no request and creates
  no note; recording goes on with the same recorder, timers and start time. Only
  \<open>isProcessing\<close>, the task itself and (second listing) the toasts change. This holds in
  both listings.
\<close>

theorem failure_keeps_session:
  assumes "failureEvent e"
  shows "currentTranscript (step1 e s1) = currentTranscript s1
    \<and> transcriptChunks (step1 e s1) = transcriptChunks s1
    \<and> generateCalls (step1 e s1) = generateCalls s1
    \<and> voiceNotes (step1 e s1) = voiceNotes s1
    \<and> isRecording (step1 e s1) = isRecording s1
    \<and> mediaRecorderRef (step1 e s1) = mediaRecorderRef s1
    \<and> chunkIntervalRef (step1 e s1) = chunkIntervalRef s1
    \<and> durationIntervalRef (step1 e s1) = durationIntervalRef s1
    \<and> recordingStartTimeRef (step1 e s1) = recordingStartTimeRef s1
    \<and> recorders (step1 e s1) = recorders s1
    \<and> chunkIntervals (step1 e s1) = chunkIntervals s1
    \<and> durationIntervals (step1 e s1) = durationIntervals s1
    \<and> currentTranscript (step2 e s2) = currentTranscript s2
    \<and> transcriptChunks (step2 e s2) = transcriptChunks s2
    \<and> generateCalls (step2 e s2) = generateCalls s2
    \<and> voiceNotes (step2 e s2) = voiceNotes s2
    \<and> isRecording (step2 e s2) = isRecording s2
    \<and> mediaRecorderRef (step2 e s2) = mediaRecorderRef s2
    \<and> durationIntervalRef (step2 e s2) = durationIntervalRef s2
    \<and> recordingStartTimeRef (step2 e s2) = recordingStartTimeRef s2
    \<and> recorders (step2 e s2) = recorders s2
    \<and> durationIntervals (step2 e s2) = durationIntervals s2"
  using assms
  by (cases e) (auto simp: step_defs split: sum.splits phase.splits)

theorem failure_keeps_session_witness:
  "failureEvent (Generated 1 (Inl Rejected))
   \<and> currentTranscript (step1 (Generated 1 (Inl Rejected)) generatingExample1) = ''Hello.''
   \<and> isRecording (step1 (Generated 1 (Inl Rejected)) generatingExample1)
   \<and> currentTranscript (step2 (Generated 1 (Inl Rejected)) generatingExample2) = ''Hello.''
   \<and> isRecording (step2 (Generated 1 (Inl Rejected)) generatingExample2)
   \<and> phaseOf (step2 (Generated 1 (Inl Rejected)) generatingExample2) 1 = Settled"
proof -
  have h: "failureEvent (Generated 1 (Inl Rejected))" by simp
  have "phaseOf (step2 (Generated 1 (Inl Rejected)) generatingExample2) 1 = Settled"
    by (simp add: generatingExample2_def eval_defs)
  with h failure_keeps_session [OF h, of generatingExample1 generatingExample2]
  show ?thesis
    by (simp add: generatingExample1_eval generatingExample2_eval)
qed

section \<open>Order of the chunks\<close>

text \<open>
  Claim C2 at a failing input. Two segments yield \<open>hello\<close> and \<open>world\<close>. In the second
  listing every call of \<open>processAudioChunk\<close> in a session stores the chunk list of the
  render \<open>startRecording\<close> ran in, extended by its own chunk: when the answers arrive
  in the other order the list ends as \<open>[hello]\<close>, and when they arrive in order it ends as
  \<open>[world]\<close>; never as \<open>[hello, world]\<close>. All calls have settled in both runs.
\<close>

theorem chunk_order_failing_input:
  "map text2 (transcriptChunks (run2 overlappingSegments2 init)) = [''hello'']
   \<and> list_all (\<lambda>t. phase t = Settled) (tasks (run2 overlappingSegments2 init))
   \<and> map text2 (transcriptChunks (run2 successiveSegments2 init)) = [''world'']
   \<and> list_all (\<lambda>t. phase t = Settled) (tasks (run2 successiveSegments2 init))"
  by (simp add: overlappingSegments2_def successiveSegments2_def eval_defs)

text \<open>The first listing appends through an updater, so its list is in the order in
  which the transcriptions arrive.\<close>

lemma chunk_order_first_listing:
  "map text1 (transcriptChunks (run1 overlappingSegments1 init))
     = [''hello word'', ''hello world'']"
  by (simp add: overlappingSegments1_def eval_defs)

section \<open>What the saved note contains\<close>

text \<open>
  Claim C3 at a failing input (second listing). Recording is stopped when the transcript
  is \<open>Hello.\<close>; the flushed segment is transcribed and enhanced, the transcript becomes
  \<open>World.\<close> and every call has settled; then the timeout fires. The note is built from the
  transcript as it was when \<open>stopRecording\<close> was called, \<open>Hello.\<close>. If the timeout fires
  while the request for the flushed segment is still out, the note is built all the same.
\<close>

theorem stale_note_failing_input:
  "map note_text (voiceNotes (run2 flushThenFinalize2 finalizingExample2)) = [''Hello.'']
   \<and> currentTranscript (run2 flushThenFinalize2 finalizingExample2) = ''World.''
   \<and> list_all (\<lambda>t. phase t = Settled) (tasks (run2 flushThenFinalize2 finalizingExample2))
   \<and> map note_text (voiceNotes (run2 finalizeDuringFlush2 finalizingExample2)) = [''Hello.'']
   \<and> phaseOf (run2 finalizeDuringFlush2 finalizingExample2) 1
       = Generating [\<lparr>id2 = ''8450'', text2 = ''world''\<rparr>]"
  by (simp add: flushThenFinalize2_def finalizeDuringFlush2_def finalizingExample2_def
        recordingExample2_def eval_defs)

text \<open>In the first listing the note is built inside \<open>stopRecording\<close>, before the recorder
  has delivered anything: stopping before the first transcript saves no note, although
  the transcript is non-empty once the work has settled.\<close>

lemma stale_note_first_listing:
  "voiceNotes (run1 stopThenFlush1 init) = []
   \<and> currentTranscript (run1 stopThenFlush1 init) = ''Hello.''
   \<and> list_all (\<lambda>t. phase t = Settled) (tasks (run1 stopThenFlush1 init))"
  by (simp add: stopThenFlush1_def eval_defs)

section \<open>Note ids\<close>

text \<open>
  Claim C9, as stated, fails: the id of a note is the decimal numeral of \<open>Date.now()\<close>
  at the moment the note is built, and nothing else. Two notes built at the same clock
  reading carry the same id.
\<close>

theorem same_millisecond_ids_counterexample:
  "map note_id (voiceNotes (run2 sameMillisecond2 init)) = [''13000'', ''13000'']
   \<and> map note_text (voiceNotes (run2 sameMillisecond2 init)) = [''Two.'', ''One.'']
   \<and> \<not> distinct (map note_id (voiceNotes (run2 sameMillisecond2 init)))"
  by (simp add: sameMillisecond2_def twoStops2_def eval_defs)

lemma notes_step1:
  "voiceNotes (step1 e s) = voiceNotes s
   \<or> (\<exists>i. voiceNotes (step1 e s) = filter (\<lambda>note. note_id note \<noteq> i) (voiceNotes s))
   \<or> (\<exists>n. voiceNotes (step1 e s) = n # voiceNotes s \<and> note_id n = toString (clock e))"
  by (cases e) (auto simp: step_defs split: option.splits list.splits sum.splits phase.splits media.splits)

lemma notes_step2:
  "voiceNotes (step2 e s) = voiceNotes s
   \<or> (\<exists>i. voiceNotes (step2 e s) = filter (\<lambda>note. note_id note \<noteq> i) (voiceNotes s))
   \<or> (\<exists>n. voiceNotes (step2 e s) = n # voiceNotes s \<and> note_id n = toString (clock e))"
  by (cases e) (auto simp: step_defs split: option.splits list.splits sum.splits phase.splits media.splits)

text \<open>What one step does to the ids, from what it does to the note list.\<close>

lemma ids_after_step:
  assumes shape: "vs' = vs
      \<or> (\<exists>i. vs' = filter (\<lambda>note. note_id note \<noteq> i) vs)
      \<or> (\<exists>n. vs' = n # vs \<and> note_id n = toString c)"
    and d: "distinct (map note_id vs)"
    and times: "distinct ((if length vs' > length vs then [c] else []) @ ts)"
    and fresh: "note_id ` set vs \<inter> toString ` set ((if length vs' > length vs then [c] else []) @ ts) = {}"
  shows "distinct (map note_id vs') \<and> note_id ` set vs' \<inter> toString ` set ts = {}"
proof -
  consider (same) "vs' = vs"
    | (del) i where "vs' = filter (\<lambda>note. note_id note \<noteq> i) vs"
    | (ins) n where "vs' = n # vs" "note_id n = toString c"
    using shape by blast
  then show ?thesis
  proof cases
    case same
    with d fresh show ?thesis by auto
  next
    case del
    then have "\<not> length vs' > length vs"
      by (simp add: not_less)
    with del d fresh show ?thesis by (auto simp: distinct_map_filter)
  next
    case ins
    then have grow: "length vs' > length vs" by simp
    with times have c: "c \<notin> set ts" by simp
    from grow fresh have new: "toString c \<notin> note_id ` set vs"
      and old: "note_id ` set vs \<inter> toString ` set ts = {}" by auto
    from c have "toString c \<notin> toString ` set ts"
      by (auto dest: toString_inj)
    with ins d new old show ?thesis by auto
  qed
qed

lemma distinct_ids_run1:
  "distinct (map note_id (voiceNotes s)) \<Longrightarrow> distinct (noteTimes1 es s) \<Longrightarrow>
   note_id ` set (voiceNotes s) \<inter> toString ` set (noteTimes1 es s) = {} \<Longrightarrow>
   distinct (map note_id (voiceNotes (run1 es s)))"
proof (induction es arbitrary: s)
  case Nil
  then show ?case by simp
next
  case (Cons e es)
  from ids_after_step [OF notes_step1 [of e s] Cons.prems(1), of "noteTimes1 es (step1 e s)"]
    Cons.prems(2,3)
  have "distinct (map note_id (voiceNotes (step1 e s)))
      \<and> note_id ` set (voiceNotes (step1 e s)) \<inter> toString ` set (noteTimes1 es (step1 e s)) = {}"
    by simp
  moreover from Cons.prems(2) have "distinct (noteTimes1 es (step1 e s))" by simp
  ultimately show ?case using Cons.IH [of "step1 e s"] by simp
qed

lemma distinct_ids_run2:
  "distinct (map note_id (voiceNotes s)) \<Longrightarrow> distinct (noteTimes2 es s) \<Longrightarrow>
   note_id ` set (voiceNotes s) \<inter> toString ` set (noteTimes2 es s) = {} \<Longrightarrow>
   distinct (map note_id (voiceNotes (run2 es s)))"
proof (induction es arbitrary: s)
  case Nil
  then show ?case by simp
next
  case (Cons e es)
  from ids_after_step [OF notes_step2 [of e s] Cons.prems(1), of "noteTimes2 es (step2 e s)"]
    Cons.prems(2,3)
  have "distinct (map note_id (voiceNotes (step2 e s)))
      \<and> note_id ` set (voiceNotes (step2 e s)) \<inter> toString ` set (noteTimes2 es (step2 e s)) = {}"
    by simp
  moreover from Cons.prems(2) have "distinct (noteTimes2 es (step2 e s))" by simp
  ultimately show ?case using Cons.IH [of "step2 e s"] by simp
qed

text \<open>
  Claim C9, amended. After every sequence of events from the empty store (sessions that
  save notes, deletions, anything else), no two notes share an id, provided no two notes
  were built at the same clock reading. This holds in both listings.
\<close>

theorem distinct_ids_for_distinct_clock:
  assumes "distinct (noteTimes1 es1 init)" and "distinct (noteTimes2 es2 init)"
  shows "distinct (map note_id (voiceNotes (run1 es1 init)))
    \<and> distinct (map note_id (voiceNotes (run2 es2 init)))"
proof -
  have "distinct (map note_id (voiceNotes (init :: TranscriptChunk1 app)))"
    and "note_id ` set (voiceNotes (init :: TranscriptChunk1 app)) \<inter> toString ` set (noteTimes1 es1 init) = {}"
    by (simp_all add: init_def)
  with assms(1) have one: "distinct (map note_id (voiceNotes (run1 es1 init)))"
    by (rule_tac distinct_ids_run1)
  have "distinct (map note_id (voiceNotes (init :: TranscriptChunk2 app)))"
    and "note_id ` set (voiceNotes (init :: TranscriptChunk2 app)) \<inter> toString ` set (noteTimes2 es2 init) = {}"
    by (simp_all add: init_def)
  with assms(2) have "distinct (map note_id (voiceNotes (run2 es2 init)))"
    by (rule_tac distinct_ids_run2)
  with one show ?thesis by simp
qed

lemma savedSession1_eval:
  "noteTimes1 savedSession1 init = [9000]
   \<and> map note_id (voiceNotes (run1 savedSession1 init)) = [''9000'']"
  by (simp add: savedSession1_def eval_defs)

lemma differentMilliseconds2_eval:
  "noteTimes2 differentMilliseconds2 init = [12500, 12800]
   \<and> map note_id (voiceNotes (run2 differentMilliseconds2 init)) = [''12800'']"
  by (simp add: differentMilliseconds2_def twoStops2_def eval_defs)

theorem distinct_ids_for_distinct_clock_witness:
  "distinct (noteTimes1 savedSession1 init)
   \<and> distinct (noteTimes2 differentMilliseconds2 init)
   \<and> distinct (map note_id (voiceNotes (run1 savedSession1 init)))
   \<and> distinct (map note_id (voiceNotes (run2 differentMilliseconds2 init)))
   \<and> map note_id (voiceNotes (run2 differentMilliseconds2 init)) = [''12800'']"
proof -
  have h1: "distinct (noteTimes1 savedSession1 init)"
    by (simp add: savedSession1_eval)
  have h2: "distinct (noteTimes2 differentMilliseconds2 init)"
    by (simp add: differentMilliseconds2_eval)
  from distinct_ids_for_distinct_clock [OF h1 h2] h1 h2 differentMilliseconds2_eval
  show ?thesis by simp
qed

section \<open>The processing flag\<close>

text \<open>
  Claim C10, as stated, fails in the second listing: a call of \<open>processAudioChunk\<close> on a
  blob of size 0 returns at line 431, before it touches \<open>isProcessing\<close>. While another
  call is in flight the flag is true, and it is still true when the empty call is over.
\<close>

theorem empty_blob_leaves_isProcessing_counterexample:
  "isProcessing transcribingExample2
   \<and> processAudioChunk2 (render init) 0 transcribingExample2 = transcribingExample2
   \<and> isProcessing (processAudioChunk2 (render init) 0 transcribingExample2)"
  by (simp add: processAudioChunk2_def transcribingExample2_eval)

text \<open>What the answer to a call's pending \<open>await\<close> does to the call.\<close>

lemma answer_step1:
  assumes "answers e s tid"
  shows "if goesOn e
         then phaseOf (step1 e s) tid \<noteq> Settled \<and> phaseOf (step1 e s) tid \<noteq> phaseOf s tid
         else phaseOf (step1 e s) tid = Settled \<and> \<not> isProcessing (step1 e s)"
proof -
  from assms have l: "tid < length (tasks s)"
    by (cases "phaseOf s tid"; cases e) (auto simp: answers_def phaseOf_def split: if_splits)
  from assms l show ?thesis
    by (cases "phaseOf s tid"; cases e)
      (auto simp: answers_def step_defs split: sum.splits)
qed

lemma answer_step2:
  assumes "answers e s tid"
  shows "if goesOn e
         then phaseOf (step2 e s) tid \<noteq> Settled \<and> phaseOf (step2 e s) tid \<noteq> phaseOf s tid
         else phaseOf (step2 e s) tid = Settled \<and> \<not> isProcessing (step2 e s)"
proof -
  from assms have l: "tid < length (tasks s)"
    by (cases "phaseOf s tid"; cases e) (auto simp: answers_def phaseOf_def split: if_splits)
  from assms l show ?thesis
    by (cases "phaseOf s tid"; cases e)
      (auto simp: answers_def step_defs split: sum.splits)
qed

text \<open>A whole call, its three promises settling one after the other, whatever the
  answers are.\<close>

lemma whole_call1:
  "phaseOf s tid = Reading \<Longrightarrow>
   phaseOf (run1 [FileRead tid ok, Transcribed tid res now, Generated tid gen] s) tid = Settled
   \<and> \<not> isProcessing (run1 [FileRead tid ok, Transcribed tid res now, Generated tid gen] s)"
  by (cases ok; cases res; cases gen)
    (auto simp: step_defs split: if_splits)

lemma whole_call2:
  "phaseOf s tid = Reading \<Longrightarrow>
   phaseOf (run2 [FileRead tid ok, Transcribed tid res now, Generated tid gen] s) tid = Settled
   \<and> \<not> isProcessing (run2 [FileRead tid ok, Transcribed tid res now, Generated tid gen] s)"
  by (cases ok; cases res; cases gen)
    (auto simp: step_defs split: if_splits)

text \<open>
  Claim C10, amended. Every call of \<open>processAudioChunk\<close> in the first listing, and every
  call on a blob of non-zero size in the second, leaves \<open>isProcessing\<close> false when it
  settles, on every path. Step by step: the answer to the \<open>await\<close> a call is at either
  takes the call to its next \<open>await\<close> (the blob was read, the transcription is not
  empty) or, in every other case (a rejected read, a rejected or empty transcription,
  any answer of the text generation), settles the call with \<open>isProcessing\<close> false. For a
  whole call: whatever the three answers are, the call ends settled and the flag false.
  A call on a blob of size 0 in the second listing leaves the state, and so the flag,
  untouched.
\<close>

theorem settling_clears_isProcessing:
  assumes "answers e1 s1 tid1" and "answers e2 s2 tid2" and "sz \<noteq> 0"
  shows "(if goesOn e1
          then phaseOf (step1 e1 s1) tid1 \<noteq> Settled \<and> phaseOf (step1 e1 s1) tid1 \<noteq> phaseOf s1 tid1
          else phaseOf (step1 e1 s1) tid1 = Settled \<and> \<not> isProcessing (step1 e1 s1))
    \<and> (if goesOn e2
        then phaseOf (step2 e2 s2) tid2 \<noteq> Settled \<and> phaseOf (step2 e2 s2) tid2 \<noteq> phaseOf s2 tid2
        else phaseOf (step2 e2 s2) tid2 = Settled \<and> \<not> isProcessing (step2 e2 s2))
    \<and> phaseOf (run1 [FileRead (length (tasks t1)) ok1,
                      Transcribed (length (tasks t1)) res1 now1,
                      Generated (length (tasks t1)) gen1] (processAudioChunk1 r1 t1))
          (length (tasks t1)) = Settled
    \<and> \<not> isProcessing (run1 [FileRead (length (tasks t1)) ok1,
                      Transcribed (length (tasks t1)) res1 now1,
                      Generated (length (tasks t1)) gen1] (processAudioChunk1 r1 t1))
    \<and> phaseOf (run2 [FileRead (length (tasks t2)) ok2,
                      Transcribed (length (tasks t2)) res2 now2,
                      Generated (length (tasks t2)) gen2] (processAudioChunk2 r2 sz t2))
          (length (tasks t2)) = Settled
    \<and> \<not> isProcessing (run2 [FileRead (length (tasks t2)) ok2,
                      Transcribed (length (tasks t2)) res2 now2,
                      Generated (length (tasks t2)) gen2] (processAudioChunk2 r2 sz t2))
    \<and> processAudioChunk2 r2 0 t2 = t2"
proof -
  have a: "phaseOf (processAudioChunk1 r1 t1) (length (tasks t1)) = Reading"
    by (simp add: processAudioChunk1_def phaseOf_def)
  from assms(3) have b: "phaseOf (processAudioChunk2 r2 sz t2) (length (tasks t2)) = Reading"
    by (simp add: processAudioChunk2_def phaseOf_def)
  have c: "processAudioChunk2 r2 0 t2 = t2" by (simp add: processAudioChunk2_def)
  from answer_step1 [OF assms(1)] answer_step2 [OF assms(2)]
    whole_call1 [OF a, of ok1 res1 now1 gen1] whole_call2 [OF b, of ok2 res2 now2 gen2] c
  show ?thesis by simp
qed

theorem settling_clears_isProcessing_witness:
  "answers (Generated 1 (Inr ''Hello, hello.'')) generatingExample1 1
   \<and> answers (Transcribed 0 (Inl Rejected) 9000) transcribingExample2 0
   \<and> (40000 :: nat) \<noteq> 0
   \<and> phaseOf (step1 (Generated 1 (Inr ''Hello, hello.'')) generatingExample1) 1 = Settled
   \<and> \<not> isProcessing (step1 (Generated 1 (Inr ''Hello, hello.'')) generatingExample1)
   \<and> phaseOf (step2 (Transcribed 0 (Inl Rejected) 9000) transcribingExample2) 0 = Settled
   \<and> \<not> isProcessing (step2 (Transcribed 0 (Inl Rejected) 9000) transcribingExample2)
   \<and> \<not> isProcessing (run1 [FileRead 1 False, Transcribed 1 (Inr ''hello'') 9000,
                             Generated 1 (Inr ''Hello.'')]
                       (processAudioChunk1 (render init) transcribingExample1))
   \<and> \<not> isProcessing (run2 [FileRead 1 True, Transcribed 1 (Inr '' '') 9000,
                             Generated 1 (Inr ''Hello.'')]
                       (processAudioChunk2 (render init) 40000 transcribingExample2))"
proof -
  have h1: "answers (Generated 1 (Inr ''Hello, hello.'')) generatingExample1 1"
    using generatingExample1_eval by (simp add: answers_def)
  have h2: "answers (Transcribed 0 (Inl Rejected) 9000) transcribingExample2 0"
    using transcribingExample2_eval by (simp add: answers_def)
  have h3: "(40000 :: nat) \<noteq> 0" by simp
  have l1: "length (tasks transcribingExample1) = 1"
    by (simp add: transcribingExample1_def eval_defs)
  have l2: "length (tasks transcribingExample2) = 1"
    by (simp add: transcribingExample2_def eval_defs)
  from settling_clears_isProcessing [OF h1 h2 h3,
      of transcribingExample1 False "Inr ''hello''" 9000 "Inr ''Hello.''" "render init"
         transcribingExample2 True "Inr '' ''" 9000 "Inr ''Hello.''" "render init"]
    h1 h2
  show ?thesis by (simp add: l1 l2)
qed

section \<open>Starting while a session is active\<close>

lemma recordingExample2_eval:
  "isRecording recordingExample2 \<and> \<not> isProcessing recordingExample2
   \<and> currentTranscript recordingExample2 = ''Hello.''
   \<and> recordingStartTimeRef recordingExample2 = 1000
   \<and> finalizers recordingExample2 = [] \<and> voiceNotes recordingExample2 = []
   \<and> starting recordingExample2 = []
   \<and> map rstate (recorders recordingExample2) = [Recording]"
  by (simp add: recordingExample2_def eval_defs)

lemma finalizingExample2_eval:
  "\<not> isRecording finalizingExample2 \<and> isProcessing finalizingExample2
   \<and> map seen_currentTranscript (finalizers finalizingExample2) = [''Hello.'']
   \<and> currentTranscript finalizingExample2 = ''Hello.''
   \<and> phaseOf finalizingExample2 1 = Reading
   \<and> recordingStartTimeRef finalizingExample2 = 1000
   \<and> starting finalizingExample2 = []
   \<and> map rstate (recorders finalizingExample2) = [Inactive]"
  by (simp add: finalizingExample2_def recordingExample2_def eval_defs)

text \<open>
  Claim C4, as stated, fails in both listings. \<open>startRecording\<close> checks no status,
  neither when it is called nor when it goes on after \<open>getUserMedia\<close>; only the button
  keeps it from being called, and only while \<open>isRecording\<close> is true, which it becomes
  at the end of \<open>startRecording\<close>. After a double click the second call goes on while
  the first session is recording: it creates and starts a second recorder, the first
  one still recording, and resets the start time. In the second listing a press after
  \<open>stopRecording\<close>, while the flushed blob is processed and the note is pending, starts
  a new session too and clears the transcript the pending note is waiting for.
\<close>

theorem second_start_counterexample:
  "isRecording (run1 doublePress init)
   \<and> map rstate (recorders (run1 doublePress init)) = [Recording]
   \<and> recordingStartTimeRef (run1 doublePress init) = 1200
   \<and> map rstate (recorders (step1 (MediaSettled Granted 1250) (run1 doublePress init)))
       = [Recording, Recording]
   \<and> mediaRecorderRef (step1 (MediaSettled Granted 1250) (run1 doublePress init)) = Some 1
   \<and> recordingStartTimeRef (step1 (MediaSettled Granted 1250) (run1 doublePress init)) = 1250
   \<and> map running (chunkIntervals (step1 (MediaSettled Granted 1250) (run1 doublePress init)))
       = [True, True]
   \<and> isRecording (run2 doublePress init)
   \<and> map rstate (recorders (run2 doublePress init)) = [Recording]
   \<and> recordingStartTimeRef (run2 doublePress init) = 1200
   \<and> map rstate (recorders (step2 (MediaSettled Granted 1250) (run2 doublePress init)))
       = [Recording, Recording]
   \<and> mediaRecorderRef (step2 (MediaSettled Granted 1250) (run2 doublePress init)) = Some 1
   \<and> recordingStartTimeRef (step2 (MediaSettled Granted 1250) (run2 doublePress init)) = 1250
   \<and> \<not> isRecording finalizingExample2 \<and> isProcessing finalizingExample2
   \<and> finalizers finalizingExample2 \<noteq> []
   \<and> currentTranscript finalizingExample2 = ''Hello.''
   \<and> isRecording (run2 [Click 8100, MediaSettled Granted 8200] finalizingExample2)
   \<and> currentTranscript (run2 [Click 8100, MediaSettled Granted 8200] finalizingExample2) = []
   \<and> recordingStartTimeRef (run2 [Click 8100, MediaSettled Granted 8200] finalizingExample2)
       = 8200"
proof -
  have one: "isRecording (run1 doublePress init)
     \<and> map rstate (recorders (run1 doublePress init)) = [Recording]
     \<and> recordingStartTimeRef (run1 doublePress init) = 1200
     \<and> map rstate (recorders (step1 (MediaSettled Granted 1250) (run1 doublePress init)))
         = [Recording, Recording]
     \<and> mediaRecorderRef (step1 (MediaSettled Granted 1250) (run1 doublePress init)) = Some 1
     \<and> recordingStartTimeRef (step1 (MediaSettled Granted 1250) (run1 doublePress init)) = 1250
     \<and> map running (chunkIntervals (step1 (MediaSettled Granted 1250) (run1 doublePress init)))
         = [True, True]"
    by (simp add: doublePress_def eval_defs)
  have two: "isRecording (run2 doublePress init)
     \<and> map rstate (recorders (run2 doublePress init)) = [Recording]
     \<and> recordingStartTimeRef (run2 doublePress init) = 1200
     \<and> map rstate (recorders (step2 (MediaSettled Granted 1250) (run2 doublePress init)))
         = [Recording, Recording]
     \<and> mediaRecorderRef (step2 (MediaSettled Granted 1250) (run2 doublePress init)) = Some 1
     \<and> recordingStartTimeRef (step2 (MediaSettled Granted 1250) (run2 doublePress init)) = 1250"
    by (simp add: doublePress_def eval_defs)
  have three: "isRecording (run2 [Click 8100, MediaSettled Granted 8200] finalizingExample2)
     \<and> currentTranscript (run2 [Click 8100, MediaSettled Granted 8200] finalizingExample2) = []
     \<and> recordingStartTimeRef (run2 [Click 8100, MediaSettled Granted 8200] finalizingExample2)
         = 8200"
    by (simp add: finalizingExample2_def recordingExample2_def eval_defs)
  from one two three finalizingExample2_eval show ?thesis by auto
qed

text \<open>
  Claim C4, amended. A press of the record button calls \<open>startRecording\<close> exactly when
  \<open>isRecording\<close> is false (and, in the first listing, \<open>isProcessing\<close> is false). While
  \<open>isRecording\<close> is true a press is ignored if the button is disabled and runs
  \<open>stopRecording\<close> otherwise: it makes no call of \<open>startRecording\<close> (the calls
  suspended at \<open>getUserMedia\<close> are the same before and after), creates no recorder,
  does not change which recorder is the current one, and keeps the transcript, the chunk
  list and the start time; the state is unchanged or \<open>isRecording\<close> has become false.
\<close>

theorem press_while_recording_never_starts:
  assumes "isRecording s1" and "isRecording s2"
  shows "click1 now s1 = (if isProcessing s1 then s1 else stopRecording1 now s1)
    \<and> click2 s2 = (if isProcessing s2 then s2 else stopRecording2 s2)
    \<and> (click1 now s1 = s1 \<or> \<not> isRecording (click1 now s1))
    \<and> (click2 s2 = s2 \<or> \<not> isRecording (click2 s2))
    \<and> starting (click1 now s1) = starting s1
    \<and> map handlers (recorders (click1 now s1)) = map handlers (recorders s1)
    \<and> mediaRecorderRef (click1 now s1) = mediaRecorderRef s1
    \<and> currentTranscript (click1 now s1) = currentTranscript s1
    \<and> transcriptChunks (click1 now s1) = transcriptChunks s1
    \<and> recordingStartTimeRef (click1 now s1) = recordingStartTimeRef s1
    \<and> starting (click2 s2) = starting s2
    \<and> map handlers (recorders (click2 s2)) = map handlers (recorders s2)
    \<and> mediaRecorderRef (click2 s2) = mediaRecorderRef s2
    \<and> currentTranscript (click2 s2) = currentTranscript s2
    \<and> transcriptChunks (click2 s2) = transcriptChunks s2
    \<and> recordingStartTimeRef (click2 s2) = recordingStartTimeRef s2
    \<and> starting (click1 now t1)
        = (if isRecording t1 \<or> isProcessing t1 then starting t1 else starting t1 @ [render t1])
    \<and> starting (click2 t2)
        = (if isRecording t2 then starting t2 else starting t2 @ [render t2])"
proof -
  have h: "map handlers (stopIfRecording ref rs) = map handlers rs" for ref
    and rs :: "'c MediaRecorder list"
    by (auto simp: stopIfRecording_def map_update list_update_same_conv split: option.splits)
  from assms show ?thesis
    by (auto simp: click1_def click2_def stopRecording1_def stopRecording2_def
          startRecording_def Let_def h)
qed

theorem press_while_recording_never_starts_witness:
  "isRecording generatingExample1 \<and> isRecording recordingExample2
   \<and> click1 12000 generatingExample1 = stopRecording1 12000 generatingExample1
   \<and> click2 recordingExample2 = stopRecording2 recordingExample2
   \<and> starting (click1 12000 generatingExample1) = []
   \<and> starting (click2 recordingExample2) = []
   \<and> currentTranscript (click2 recordingExample2) = ''Hello.''
   \<and> starting (click1 12000 transcribingExample1) = []
   \<and> starting (click2 finalizingExample2) = [render finalizingExample2]"
proof -
  have h1: "isRecording generatingExample1" and h2: "isRecording recordingExample2"
    by (simp_all add: generatingExample1_eval recordingExample2_eval)
  have p1: "\<not> isProcessing generatingExample1" "starting generatingExample1 = []"
    using generatingExample1_eval by (simp_all add: generatingExample1_def eval_defs)
  have p2: "isProcessing transcribingExample1" "starting transcribingExample1 = []"
    using transcribingExample1_eval by (simp_all add: transcribingExample1_def eval_defs)
  from press_while_recording_never_starts
    [OF h1 h2, of 12000 transcribingExample1 finalizingExample2]
    h1 h2 p1 p2 recordingExample2_eval finalizingExample2_eval
  show ?thesis by auto
qed

section \<open>Whether a note is saved, and its duration\<close>

text \<open>
  Claim C6 at a failing input (second listing). The note is built by the callback of the
  500 ms timeout, from the transcript captured when \<open>stopRecording\<close> was called and from
  the start time found in \<open>recordingStartTimeRef\<close> when the callback runs. A session
  started at 1000 is stopped at 8000 with transcript \<open>Hello.\<close>; the button is pressed
  again and a new session begins at 8200, which overwrites the start time; at 8500 the
  note of the stopped session is saved with duration 0, not 7. And a session stopped
  before its first transcript saves no note, although the transcript is \<open>Hello.\<close> and
  every call has settled when the timeout fires.
\<close>

theorem note_at_finalization_failing_input:
  "recordingStartTimeRef finalizingExample2 = 1000
   \<and> map seen_currentTranscript (finalizers finalizingExample2) = [''Hello.'']
   \<and> map note_text (voiceNotes (run2 restartBeforeFinalize2 finalizingExample2)) = [''Hello.'']
   \<and> map note_timestamp (voiceNotes (run2 restartBeforeFinalize2 finalizingExample2)) = [8500]
   \<and> map note_duration (voiceNotes (run2 restartBeforeFinalize2 finalizingExample2)) = [0]
   \<and> voiceNotes (run2 stopBeforeTranscript2 init) = []
   \<and> currentTranscript (run2 stopBeforeTranscript2 init) = ''Hello.''
   \<and> finalizers (run2 stopBeforeTranscript2 init) = []
   \<and> list_all (\<lambda>t. phase t = Settled) (tasks (run2 stopBeforeTranscript2 init))"
  by (simp add: restartBeforeFinalize2_def stopBeforeTranscript2_def finalizingExample2_def
        recordingExample2_def eval_defs)

text \<open>What the timeout's callback does in general: the transcript is the one of the
  render in which \<open>stopRecording\<close> was called, the start time the one in the reference
  when the callback runs.\<close>

lemma finalizeTimeout2_notes:
  "finalizers s = r # rs \<Longrightarrow>
   voiceNotes (finalizeTimeout2 now s)
     = (if trim (seen_currentTranscript r) \<noteq> []
        then \<lparr> note_id = toString now, note_text = trim (seen_currentTranscript r),
               note_timestamp = now,
               note_duration = (now - recordingStartTimeRef s) div 1000 \<rparr> # voiceNotes s
        else voiceNotes s)"
  by (simp add: finalizeTimeout2_def finalize2_def)

text \<open>In the first listing the note is built inside \<open>stopRecording\<close>, so the transcript
  and the start time are those of the moment the button is pressed.\<close>

lemma stopRecording1_notes:
  "voiceNotes (stopRecording1 now s)
     = (if trim (currentTranscript s) \<noteq> []
        then \<lparr> note_id = toString now, note_text = trim (currentTranscript s),
               note_timestamp = now,
               note_duration = (now - recordingStartTimeRef s) div 1000 \<rparr> # voiceNotes s
        else voiceNotes s)"
  by (simp add: stopRecording1_def Let_def)

section \<open>Which enhancement result is shown\<close>

text \<open>
  The calls of \<open>processAudioChunk\<close> made during one session all belong to the render
  \<open>startRecording\<close> ran in, because the recorder's handlers and the timer callbacks are
  created there once. The events of the session keep \<open>callsInv\<close> and \<open>timersInv\<close>.
\<close>

lemma list_all_drop:
  "list_all P (drop n xs) = (\<forall>i. n \<le> i \<longrightarrow> i < length xs \<longrightarrow> P (xs ! i))"
proof
  assume a: "list_all P (drop n xs)"
  show "\<forall>i. n \<le> i \<longrightarrow> i < length xs \<longrightarrow> P (xs ! i)"
  proof (intro allI impI)
    fix i assume "n \<le> i" and "i < length xs"
    then have "i - n < length (drop n xs)" and "drop n xs ! (i - n) = xs ! i" by simp_all
    with a show "P (xs ! i)" by (metis list_all_length)
  qed
next
  assume a: "\<forall>i. n \<le> i \<longrightarrow> i < length xs \<longrightarrow> P (xs ! i)"
  then show "list_all P (drop n xs)" by (simp add: list_all_length)
qed


lemma tasksOk_append:
  assumes "list_all P (drop n xs)" and "P y"
  shows "list_all P (drop n (xs @ [y]))"
  using assms by (auto simp: list_all_drop nth_append less_Suc_eq)






lemma phaseOf_frame [simp]:
  "phaseOf (s\<lparr>isProcessing := b\<rparr>) tid = phaseOf s tid"
  "phaseOf (s\<lparr>toasts := ts\<rparr>) tid = phaseOf s tid"
  "phaseOf (s\<lparr>currentTranscript := ct\<rparr>) tid = phaseOf s tid"
  "phaseOf (s\<lparr>transcriptChunks := cs\<rparr>) tid = phaseOf s tid"
  "phaseOf (s\<lparr>generateCalls := gs\<rparr>) tid = phaseOf s tid"
  by (simp_all add: phaseOf_def)



































text \<open>
  A call left over from an earlier session is not one of the session's calls. Here the
  text-generation request of the flushed segment of a first session, issued over one
  fragment, is still out when a second session begins; the second session applies a
  result issued over two fragments, then the request of the first session returns and
  its result replaces the transcript.
\<close>

lemma leftover_call_applied:
  "starting leftoverPending2 \<noteq> [] \<and> \<not> allSettled leftoverPending2
   \<and> list_all (sessionEvent (length (recorders leftoverPending2)) 0) leftoverReturns2
   \<and> length (tasks leftoverPending2) = 1
   \<and> appliedResults2 1 leftoverReturns2 (mediaSettled2 Granted 4450 leftoverPending2)
       = [(2, ''Hello world.'')]
   \<and> appliedResults2 0 leftoverReturns2 (mediaSettled2 Granted 4450 leftoverPending2)
       = [(2, ''Hello world.''), (1, ''Hello.'')]
   \<and> currentTranscript (run2 leftoverReturns2 (mediaSettled2 Granted 4450 leftoverPending2))
       = ''Hello.''"
  by (simp add: leftoverPending2_def leftoverReturns2_def allSettled_def applied_def eval_defs)

end
